theory Spec2Isabelle
  imports Main "HOL-Library.Code_Target_Numeral"
begin

section \<open>JavaScript values\<close>

text \<open>
  The node works on untyped JSON data: the input items, the node parameters, the
  credentials and the upstream response are all values of this type. Numbers are
  restricted to integers (no NaN, no fractions). An object is the list of its own
  enumerable properties in the order in which JavaScript enumerates them. A string is the
  list of its code units, which are those below 256.
\<close>

datatype jsval =
    JUndefined
  | JNull
  | JBool bool
  | JNum int
  | JStr string
  | JArr "jsval list"
  | JObj "(string \<times> jsval) list"

text \<open>
  What the code can throw. A \<open>TypeError\<close> comes from the language itself: a property read
  on \<open>null\<close> or \<open>undefined\<close>, a call of something that is not a function, a \<open>delete\<close> of
  a property that cannot be deleted (the class body is strict code). The text of its message
  is the engine's, so \<open>message\<close> takes it as a parameter. \<open>Error\<close> stands for whatever the
  credential store or the transport rejects with.
\<close>

datatype type_error =
    ReadOfNullish jsval string
  | NotAFunction string
  | CannotDelete string

datatype error =
    TypeError type_error
  | NodeOperationError string
  | Error string

fun message :: "(type_error \<Rightarrow> string) \<Rightarrow> error \<Rightarrow> string" where
  "message txt (TypeError t) = txt t"
| "message txt (NodeOperationError m) = m"
| "message txt (Error m) = m"

text \<open>Truthiness, as tested by \<open>if (v)\<close>, \<open>!v\<close>, \<open>a || b\<close> and \<open>a && b\<close>.\<close>

fun truthy :: "jsval \<Rightarrow> bool" where
  "truthy JUndefined = False"
| "truthy JNull = False"
| "truthy (JBool b) = b"
| "truthy (JNum n) = (n \<noteq> 0)"
| "truthy (JStr s) = (s \<noteq> [])"
| "truthy (JArr xs) = True"
| "truthy (JObj kvs) = True"

definition js_or :: "jsval \<Rightarrow> jsval \<Rightarrow> jsval" where
  "js_or a b = (if truthy a then a else b)"

fun is_string :: "jsval \<Rightarrow> bool" where
  "is_string (JStr s) = True"
| "is_string v = False"

fun nullish :: "jsval \<Rightarrow> bool" where
  "nullish JUndefined = True"
| "nullish JNull = True"
| "nullish v = False"

subsection \<open>Properties\<close>

fun lookup :: "string \<Rightarrow> (string \<times> jsval) list \<Rightarrow> jsval" where
  "lookup k [] = JUndefined"
| "lookup k ((k', v) # kvs) = (if k = k' then v else lookup k kvs)"

definition has_key :: "string \<Rightarrow> (string \<times> jsval) list \<Rightarrow> bool" where
  "has_key k kvs = (k \<in> set (map fst kvs))"

text \<open>
  \<open>o[k] = v\<close> on a plain object, and a later entry of an object literal or spread: the
  value of an existing key is replaced where it stands, a new key goes to the end.
\<close>

fun set_prop :: "string \<Rightarrow> jsval \<Rightarrow> (string \<times> jsval) list \<Rightarrow> (string \<times> jsval) list" where
  "set_prop k v [] = [(k, v)]"
| "set_prop k v ((k', v') # kvs) =
     (if k = k' then (k, v) # kvs else (k', v') # set_prop k v kvs)"

definition remove_key :: "string \<Rightarrow> (string \<times> jsval) list \<Rightarrow> (string \<times> jsval) list" where
  "remove_key k kvs = filter (\<lambda>kv. fst kv \<noteq> k) kvs"

text \<open>
  The property read \<open>v.k\<close> for a base \<open>v\<close> that is neither \<open>null\<close> nor \<open>undefined\<close> and a
  name \<open>k\<close> that no built-in prototype defines; this holds of every name the node reads
  (\<open>query\<close>, \<open>input\<close>, \<open>prompt\<close>, \<open>results\<close>, \<open>snippet\<close>, \<open>content\<close>, \<open>apiUrl\<close>, \<open>apiKey\<close>
  and the names of the additional fields) with the one exception of \<open>filter\<close> on an array,
  which \<open>filters_of\<close> treats. Primitives and arrays have no such property. A read on
  \<open>null\<close> or \<open>undefined\<close> throws; every caller that the code can reach with such a base
  tests for it first.
\<close>

fun get_prop :: "jsval \<Rightarrow> string \<Rightarrow> jsval" where
  "get_prop (JObj kvs) k = lookup k kvs"
| "get_prop v k = JUndefined"

subsection \<open>Strings\<close>

text \<open>The decimal digits of a natural number, as an array index is written.\<close>

function string_of_nat :: "nat \<Rightarrow> string" where
  "string_of_nat n =
     (if n < 10 then [char_of (48 + n)]
      else string_of_nat (n div 10) @ [char_of (48 + n mod 10)])"
  by pat_completeness auto
termination
  by (relation "measure id") auto

declare string_of_nat.simps [simp del]

text \<open>
  \<open>Number::toString\<close> for an integer. A number of JavaScript is a double, so an integer
  stands for the double nearest to it, ties going to the even significand: itself up to
  \<open>2^53\<close> in magnitude, a multiple of \<open>ulp\<close> beyond, an infinity past the largest double.
  The digits printed are those of the shortest decimal that reads back as the same double,
  the closest to it among the shortest, and the even one of two equally close; from 22
  digits on the exponent form is used.
\<close>

function ulp :: "nat \<Rightarrow> nat" where
  "ulp m = (if m < 2 ^ 53 then 1 else 2 * ulp (m div 2))"
  by pat_completeness auto
termination
  by (relation "measure id") auto

declare ulp.simps [simp del]

definition to_double :: "nat \<Rightarrow> nat" where
  "to_double m =
     (let u = ulp m; q = m div u; r = m mod u
      in if 2 * r < u \<or> (2 * r = u \<and> even q) then q * u else (q + 1) * u)"

text \<open>
  The decimal with \<open>k\<close> significant digits that reads back as the double \<open>x\<close>, when there
  is one: \<open>x\<close> cut to \<open>k\<close> digits, or the next such decimal above it.
\<close>

definition candidate :: "nat \<Rightarrow> nat \<Rightarrow> nat option" where
  "candidate x k =
     (let n = length (string_of_nat x) in
      if k > n then None
      else
        (let t = 10 ^ (n - k); s = x div t; a = s * t; b = (s + 1) * t;
             a_reads = (to_double a = x); b_reads = (to_double b = x)
         in if a_reads \<and> b_reads
            then (if x - a < b - x \<or> (x - a = b - x \<and> even s) then Some a else Some b)
            else if a_reads then Some a
            else if b_reads then Some b
            else None))"

definition shortest :: "nat \<Rightarrow> nat" where
  "shortest x = (case List.map_filter (candidate x) [1..<18] of v # vs \<Rightarrow> v | [] \<Rightarrow> x)"

definition render :: "nat \<Rightarrow> string" where
  "render v =
     (let ds = string_of_nat v;
          n = length ds
      in if n \<le> 21 then ds
         else
           (case rev (dropWhile (\<lambda>c. c = CHR ''0'') (rev ds)) of
              [] \<Rightarrow> ds
            | d # rest \<Rightarrow>
                d # (if rest = [] then [] else CHR ''.'' # rest) @ ''e+'' @ string_of_nat (n - 1)))"

definition number_to_string :: "int \<Rightarrow> string" where
  "number_to_string i =
     (let x = to_double (nat \<bar>i\<bar>);
          body = (if x \<ge> 2 ^ 1024 then ''Infinity'' else render (shortest x))
      in if i < 0 then CHR ''-'' # body else body)"

text \<open>\<open>Array.prototype.join\<close> once every element is a string.\<close>

fun join_strings :: "string \<Rightarrow> string list \<Rightarrow> string" where
  "join_strings sep [] = []"
| "join_strings sep [s] = s"
| "join_strings sep (s # t # ss) = s @ sep @ join_strings sep (t # ss)"

text \<open>
  \<open>ToString\<close>, as used by template literals and by \<open>join\<close>, which turns \<open>null\<close> and
  \<open>undefined\<close> elements into the empty string.
\<close>

fun js_to_string :: "jsval \<Rightarrow> string"
  and element_strings :: "jsval list \<Rightarrow> string list" where
  "js_to_string JUndefined = ''undefined''"
| "js_to_string JNull = ''null''"
| "js_to_string (JBool b) = (if b then ''true'' else ''false'')"
| "js_to_string (JNum n) = number_to_string n"
| "js_to_string (JStr s) = s"
| "js_to_string (JArr xs) = join_strings '','' (element_strings xs)"
| "js_to_string (JObj kvs) = ''[object Object]''"
| "element_strings [] = []"
| "element_strings (x # xs) =
     (if nullish x then [] else js_to_string x) # element_strings xs"

definition js_join :: "jsval list \<Rightarrow> string \<Rightarrow> string" where
  "js_join xs sep = join_strings sep (element_strings xs)"

text \<open>\<open>s.split(',')\<close>: the pieces between the separators; the empty string gives one empty piece.\<close>

fun split :: "char \<Rightarrow> string \<Rightarrow> string list" where
  "split sep [] = [[]]"
| "split sep (c # cs) =
     (if c = sep then [] # split sep cs
      else (case split sep cs of [] \<Rightarrow> [[c]] | p # ps \<Rightarrow> (c # p) # ps))"

text \<open>
  \<open>s.trim()\<close> strips white space and line terminators. Among the code units below 256
  these are tab, line feed, vertical tab, form feed, carriage return, space and the
  no-break space \<open>U+00A0\<close>.
\<close>

definition is_space :: "char \<Rightarrow> bool" where
  "is_space c =
     (c \<in> set [CHR 0x09, CHR 0x0A, CHR 0x0B, CHR 0x0C, CHR 0x0D, CHR 0x20, CHR 0xA0])"

definition trim :: "string \<Rightarrow> string" where
  "trim s = rev (dropWhile is_space (rev (dropWhile is_space s)))"

section \<open>The node\<close>

text \<open>
  The parameters of the node as \<open>getNodeParameter(name, i)\<close> resolves them for item \<open>i\<close>.
  The code casts \<open>query\<close>, \<open>categories\<close> and \<open>additionalFields\<close> without checking them, so
  they are arbitrary values here; \<open>limit\<close> and \<open>pageno\<close> are numbers.
\<close>

record parameters =
  query :: jsval
  categories :: jsval
  additionalFields :: jsval
  limit :: int
  pageno :: int

text \<open>
  The argument of \<open>helpers.httpRequest\<close>; \<open>request_method\<close> is its \<open>method\<close> field.
\<close>

record request =
  request_method :: string
  url :: string
  qs :: "(string \<times> jsval) list"
  headers :: "(string \<times> string) list"

text \<open>
  What \<open>execute\<close> gets from its host through \<open>this\<close>. \<open>inputData\<close> holds the \<open>json\<close> payload
  of every input item. The transport is asked once for an item, so its answer is a
  function of the item's index and of the request.
\<close>

record execute_functions =
  inputData :: "jsval list"
  getCredentials :: "error + jsval"
  getNodeParameter :: "nat \<Rightarrow> parameters"
  continueOnFail :: bool
  httpRequest :: "nat \<Rightarrow> request \<Rightarrow> error + jsval"
  typeErrorMessage :: "type_error \<Rightarrow> string"

subsection \<open>Query resolution (lines 215 to 230)\<close>

definition resolve_query :: "jsval \<Rightarrow> jsval \<Rightarrow> jsval" where
  "resolve_query item query_parameter =
     (if truthy item then
        (if is_string (get_prop item ''query'') then get_prop item ''query''
         else if is_string (get_prop item ''input'') then get_prop item ''input''
         else if is_string (get_prop item ''prompt'') then get_prop item ''prompt''
         else query_parameter)
      else query_parameter)"

text \<open>
  The resolution order as the specification words it: an ordered list of rules, each
  accepting the field it names when that field is a string, the first match winning, and
  the configured query parameter when no rule matches.
\<close>

definition query_rules :: "string list" where
  "query_rules = [''query'', ''input'', ''prompt'']"

definition first_match :: "jsval \<Rightarrow> jsval \<Rightarrow> jsval" where
  "first_match item query_parameter =
     (case find is_string (map (get_prop item) query_rules) of
        Some s \<Rightarrow> s
      | None \<Rightarrow> query_parameter)"

subsection \<open>Parameter building (lines 250 to 274)\<close>

definition defaultFilters :: string where
  "defaultFilters = ''thumbnail, parsed_url , positions''"

text \<open>
  \<open>(additionalFields.filter || defaultFilters)?.split(',')\<close>. The left operand of \<open>?.\<close> is
  never \<open>null\<close> or \<open>undefined\<close>, since the default is truthy. Only a string has a \<open>split\<close>
  method. On an array, \<open>filter\<close> is the inherited method, which is truthy and has none.
\<close>

definition filters_of :: "jsval \<Rightarrow> error + string list" where
  "filters_of af =
     (if nullish af then Inl (TypeError (ReadOfNullish af ''filter''))
      else case af of
        JArr xs \<Rightarrow> Inl (TypeError (NotAFunction ''split''))
      | _ \<Rightarrow>
         (case js_or (get_prop af ''filter'') (JStr defaultFilters) of
            JStr s \<Rightarrow> Inr (split CHR '','' s)
          | _ \<Rightarrow> Inl (TypeError (NotAFunction ''split''))))"

text \<open>
  Lines 253 to 261: a string is wrapped into a one-element array, then
  \<open>(categories || ['general']).join(",")\<close>. Only an array has a \<open>join\<close> method.
\<close>

definition categories_param :: "jsval \<Rightarrow> error + string" where
  "categories_param cats =
     (case js_or (if is_string cats then JArr [cats] else cats) (JArr [JStr ''general'']) of
        JArr xs \<Rightarrow> Inr (js_join xs '','')
      | _ \<Rightarrow> Inl (TypeError (NotAFunction ''join'')))"

definition set_if_truthy :: "string \<Rightarrow> jsval \<Rightarrow> (string \<times> jsval) list \<Rightarrow> (string \<times> jsval) list" where
  "set_if_truthy k v kvs = (if truthy v then set_prop k v kvs else kvs)"

definition queryParameters :: "jsval \<Rightarrow> jsval \<Rightarrow> jsval \<Rightarrow> int \<Rightarrow> error + (string \<times> jsval) list" where
  "queryParameters q cats af pg =
     (case categories_param cats of
        Inl e \<Rightarrow> Inl e
      | Inr cs \<Rightarrow>
          (let p0 = [(''q'', q),
                     (''categories'', JStr cs),
                     (''format'', js_or (get_prop af ''format'') (JStr ''json''))];
               p1 = set_if_truthy ''language'' (get_prop af ''language'') p0;
               p2 = set_if_truthy ''time_range'' (get_prop af ''time_range'') p1;
               p3 = set_if_truthy ''safesearch'' (get_prop af ''safesearch'') p2
           in Inr (if pg > 0 then set_prop ''pageno'' (JNum pg) p3 else p3)))"

definition build_request :: "jsval \<Rightarrow> (string \<times> jsval) list \<Rightarrow> request" where
  "build_request credentials qp =
     \<lparr> request_method = ''GET'',
       url = js_to_string (get_prop credentials ''apiUrl'') @ ''/search'',
       qs = qp,
       headers = [(''Accept'', ''application/json''),
                  (''Authorization'', ''Bearer '' @ js_to_string (get_prop credentials ''apiKey''))] \<rparr>"

subsection \<open>Result processing (lines 289 to 343)\<close>

text \<open>
  The own enumerable properties of a value, which the spread \<open>{...result}\<close> copies: those
  of an object, the elements of an array and the code units of a string under their
  indices, none for a number or a boolean.
\<close>

definition index_names :: "nat \<Rightarrow> string list" where
  "index_names n = map string_of_nat [0..<n]"

fun own_props :: "jsval \<Rightarrow> (string \<times> jsval) list" where
  "own_props (JObj kvs) = kvs"
| "own_props (JArr xs) = zip (index_names (length xs)) xs"
| "own_props (JStr s) = zip (index_names (length s)) (map (\<lambda>c. JStr [c]) s)"
| "own_props v = []"

text \<open>
  Whether \<open>delete result[k]\<close> is allowed. The \<open>length\<close> of an array or of a string and the
  code units of a string cannot be deleted, and in strict code the attempt throws. Deleting
  a property that is not there is allowed and does nothing.
\<close>

fun deletable :: "jsval \<Rightarrow> string \<Rightarrow> bool" where
  "deletable (JArr xs) k = (k \<noteq> ''length'')"
| "deletable (JStr s) k = (k \<noteq> ''length'' \<and> k \<notin> set (index_names (length s)))"
| "deletable v k = True"

text \<open>
  The \<open>forEach\<close> over the filters (lines 295 to 302), on the properties that are left of
  \<open>result\<close>. The test \<open>filters && filters.length > 0\<close> around it changes nothing: \<open>filters\<close> is
  an array, and the loop over an empty one does nothing.
\<close>

fun apply_filters :: "jsval \<Rightarrow> string list \<Rightarrow> (string \<times> jsval) list \<Rightarrow> error + (string \<times> jsval) list" where
  "apply_filters result [] props = Inr props"
| "apply_filters result (f # fs) props =
     (let fieldName = trim f in
      if fieldName = [] then apply_filters result fs props
      else if \<not> deletable result fieldName then Inl (TypeError (CannotDelete fieldName))
      else apply_filters result fs (remove_key fieldName props))"

text \<open>
  \<open>delete\<close> changes \<open>result\<close> itself, which the response still holds. This is \<open>result\<close>
  after the deletions, given the properties that are left of it. An element deleted from
  an array leaves a hole, which reads as \<open>undefined\<close> and is written so here.
\<close>

fun mutated :: "jsval \<Rightarrow> (string \<times> jsval) list \<Rightarrow> jsval" where
  "mutated (JObj kvs) props = JObj props"
| "mutated (JArr xs) props =
     JArr (map (\<lambda>(k, x). if has_key k props then x else JUndefined)
            (zip (index_names (length xs)) xs))"
| "mutated v props = v"

text \<open>
  The callback of \<open>response.results.map\<close> (lines 290 to 306). It returns the processed
  result together with what has become of \<open>result\<close>.
\<close>

definition process_result :: "string list \<Rightarrow> jsval \<Rightarrow> error + (jsval \<times> jsval)" where
  "process_result filters result =
     (if nullish result then Inl (TypeError (ReadOfNullish result ''snippet''))
      else
        (let snippet = js_or (get_prop result ''snippet'') (get_prop result ''content'') in
         case apply_filters result filters (own_props result) of
           Inl e \<Rightarrow> Inl e
         | Inr props \<Rightarrow> Inr (JObj (set_prop ''snippet'' snippet props), mutated result props)))"

fun map_results :: "string list \<Rightarrow> jsval list \<Rightarrow> error + (jsval list \<times> jsval list)" where
  "map_results filters [] = Inr ([], [])"
| "map_results filters (r # rs) =
     (case process_result filters r of
        Inl e \<Rightarrow> Inl e
      | Inr (p, m) \<Rightarrow>
         (case map_results filters rs of
            Inl e \<Rightarrow> Inl e
          | Inr (ps, ms) \<Rightarrow> Inr (p # ps, m # ms)))"

text \<open>
  Lines 289 to 307: the processed results, and the response as the deletions have left it.
\<close>

definition processed_results :: "string list \<Rightarrow> jsval \<Rightarrow> error + (jsval list \<times> jsval)" where
  "processed_results filters response =
     (if nullish response then Inl (TypeError (ReadOfNullish response ''results''))
      else case get_prop response ''results'' of
        JArr rs \<Rightarrow>
          (case map_results filters rs of
             Inl e \<Rightarrow> Inl e
           | Inr (ps, ms) \<Rightarrow>
               Inr (ps, JObj (set_prop ''results'' (JArr ms) (own_props response))))
      | _ \<Rightarrow> Inr ([], response))"

text \<open>
  Lines 317 to 324: the answer and the results that are returned. \<open>slice(0, limit)\<close> keeps
  the first \<open>limit\<close> results.
\<close>

definition select_results :: "jsval \<Rightarrow> int \<Rightarrow> jsval list \<Rightarrow> jsval \<times> jsval list" where
  "select_results af lim results =
     (if truthy (get_prop af ''singleResponse'') \<and> length results > 0
      then (js_or (get_prop (results ! 0) ''content'') (get_prop (results ! 0) ''snippet''),
            [results ! 0])
      else if lim > 0 \<and> int (length results) > lim
      then (JUndefined, take (nat lim) results)
      else (JUndefined, results))"

text \<open>Lines 309 to 343: the \<open>json\<close> of the item pushed for a response.\<close>

definition success_envelope ::
  "jsval \<Rightarrow> (string \<times> jsval) list \<Rightarrow> jsval \<Rightarrow> int \<Rightarrow> jsval list \<Rightarrow> jsval \<Rightarrow> jsval" where
  "success_envelope q qp af lim results response =
     (let (answer, returned) = select_results af lim results;
          metadata = JObj [(''total'', JNum (int (length results))),
                           (''totalReturned'', JNum (int (length returned))),
                           (''filtered'', JBool (length returned \<noteq> length results)),
                           (''queryParameters'', JObj qp),
                           (''additionalFields'', af)]
      in JObj [(''success'', JBool True),
               (''metadata'', metadata),
               (''query'', q),
               (''answer'', answer),
               (''results'', JArr returned),
               (''rawResponse'',
                  if truthy (get_prop af ''rawResponse'') then response else JUndefined)])"

definition process_response ::
  "string list \<Rightarrow> jsval \<Rightarrow> (string \<times> jsval) list \<Rightarrow> jsval \<Rightarrow> int \<Rightarrow> jsval \<Rightarrow> error + jsval" where
  "process_response filters q qp af lim response =
     (case processed_results filters response of
        Inl e \<Rightarrow> Inl e
      | Inr (results, response') \<Rightarrow> Inr (success_envelope q qp af lim results response'))"

text \<open>Lines 347 to 353: the \<open>json\<close> of the item pushed for a failure.\<close>

definition failure_envelope :: "string \<Rightarrow> jsval \<Rightarrow> jsval" where
  "failure_envelope msg q =
     JObj [(''success'', JBool False), (''error'', JStr msg), (''query'', q)]"

subsection \<open>The loop over the items and \<open>execute\<close> (lines 200 to 369)\<close>

text \<open>
  One turn of the loop. \<open>Inr\<close> is the \<open>json\<close> of the item that the turn pushes. \<open>Inl\<close> is
  what the turn throws to the handler of line 362: an error of the parameter building,
  which is outside the inner \<open>try\<close>, or one that the handler of line 345 throws again.
\<close>

definition execute_item :: "execute_functions \<Rightarrow> jsval \<Rightarrow> nat \<Rightarrow> jsval \<Rightarrow> error + jsval" where
  "execute_item this credentials i item =
     (let p = getNodeParameter this i;
          q = resolve_query item (query p);
          af = additionalFields p
      in case filters_of af of
           Inl e \<Rightarrow> Inl e
         | Inr filters \<Rightarrow>
            (case queryParameters q (categories p) af (pageno p) of
               Inl e \<Rightarrow> Inl e
             | Inr qp \<Rightarrow>
                (case (case httpRequest this i (build_request credentials qp) of
                         Inl e \<Rightarrow> Inl e
                       | Inr response \<Rightarrow> process_response filters q qp af (limit p) response) of
                   Inr envelope \<Rightarrow> Inr envelope
                 | Inl e \<Rightarrow>
                     if continueOnFail this
                     then Inr (failure_envelope (message (typeErrorMessage this) e) q)
                     else Inl e)))"

text \<open>
  The loop from item \<open>i\<close> on, with \<open>returnData\<close> as it stands. When a turn throws, the
  error comes with the \<open>returnData\<close> of that moment, which the handler may still return.
\<close>

fun execute_loop ::
  "execute_functions \<Rightarrow> jsval \<Rightarrow> nat \<Rightarrow> jsval list \<Rightarrow> jsval list \<Rightarrow> (error \<times> jsval list) + jsval list" where
  "execute_loop this credentials i [] returnData = Inr returnData"
| "execute_loop this credentials i (item # items) returnData =
     (case execute_item this credentials i item of
        Inl e \<Rightarrow> Inl (e, returnData)
      | Inr envelope \<Rightarrow> execute_loop this credentials (Suc i) items (returnData @ [envelope]))"

text \<open>The handler of line 362.\<close>

definition on_error :: "execute_functions \<Rightarrow> error \<Rightarrow> jsval list \<Rightarrow> error + jsval list list" where
  "on_error this e returnData = (if continueOnFail this then Inr [returnData] else Inl e)"

definition execute :: "execute_functions \<Rightarrow> error + jsval list list" where
  "execute this =
     (case getCredentials this of
        Inl e \<Rightarrow> on_error this e []
      | Inr credentials \<Rightarrow>
          if \<not> truthy credentials
          then on_error this (NodeOperationError ''No credentials got returned!'') []
          else (case execute_loop this credentials 0 (inputData this) [] of
                  Inl (e, returnData) \<Rightarrow> on_error this e returnData
                | Inr returnData \<Rightarrow> Inr [returnData]))"

subsection \<open>Filtering by default\<close>

text \<open>
  What the specification says of the default filter: the fields \<open>thumbnail\<close>, \<open>parsed_url\<close>
  and \<open>positions\<close> are dropped from a result.
\<close>

definition default_fields :: "string list" where
  "default_fields = [''thumbnail'', ''parsed_url'', ''positions'']"

definition without_default_fields :: "(string \<times> jsval) list \<Rightarrow> (string \<times> jsval) list" where
  "without_default_fields kvs = filter (\<lambda>kv. fst kv \<notin> set default_fields) kvs"

text \<open>
  The host whose additional fields for item \<open>i\<close> carry no \<open>filter\<close>, all else being equal,
  and an envelope whose metadata record other additional fields, all else being equal; an
  envelope without metadata, as that of a failure, is left as it is.
\<close>

definition without_filter :: "nat \<Rightarrow> execute_functions \<Rightarrow> execute_functions" where
  "without_filter i this =
     this\<lparr> getNodeParameter := (getNodeParameter this)
       (i := (getNodeParameter this i)
          \<lparr> additionalFields :=
              JObj (remove_key ''filter'' (own_props (additionalFields (getNodeParameter this i)))) \<rparr>) \<rparr>"

definition with_additionalFields :: "jsval \<Rightarrow> jsval \<Rightarrow> jsval" where
  "with_additionalFields af envelope =
     (case get_prop envelope ''metadata'' of
        JObj metadata \<Rightarrow>
          JObj (set_prop ''metadata'' (JObj (set_prop ''additionalFields'' af metadata))
                  (own_props envelope))
      | _ \<Rightarrow> envelope)"

text \<open>
  A host with one item and the given additional fields, whose upstream answers with one
  result that has the three default fields.
\<close>

definition filter_item :: "jsval \<Rightarrow> execute_functions" where
  "filter_item af =
     \<lparr> inputData = [JObj []],
       getCredentials = Inr (JObj [(''apiUrl'', JStr ''https://searxng.example.com''),
                                   (''apiKey'', JStr ''test-api-key'')]),
       getNodeParameter = (\<lambda>i. \<lparr> query = JStr ''test query'', categories = JArr [JStr ''general''],
                                  additionalFields = af, limit = 10, pageno = 0 \<rparr>),
       continueOnFail = False,
       httpRequest = (\<lambda>i r. Inr (JObj [(''results'', JArr [JObj
          [(''title'', JStr ''T''), (''content'', JStr ''C''), (''thumbnail'', JStr ''X''),
           (''parsed_url'', JStr ''P''), (''positions'', JArr [JNum 1])]])])),
       typeErrorMessage = (\<lambda>t. []) \<rparr>"

subsection \<open>An example batch\<close>

text \<open>
  Three items, an upstream without results, and a transport that fails for the second
  item, with the host's continuation flag as the argument.
\<close>

definition three_items :: "bool \<Rightarrow> execute_functions" where
  "three_items continue =
     \<lparr> inputData = [JObj [(''query'', JStr ''a'')], JObj [(''input'', JStr ''b'')], JObj []],
       getCredentials = Inr (JObj [(''apiUrl'', JStr ''https://searxng.example.com''),
                                   (''apiKey'', JStr ''test-api-key'')]),
       getNodeParameter = (\<lambda>i. \<lparr> query = JStr ''test query'', categories = JArr [JStr ''general''],
                                  additionalFields = JObj [], limit = 10, pageno = 0 \<rparr>),
       continueOnFail = continue,
       httpRequest = (\<lambda>i r. if i = 1 then Inl (Error ''API error'')
                             else Inr (JObj [(''results'', JArr [])])),
       typeErrorMessage = (\<lambda>t. []) \<rparr>"

definition empty_envelope :: "string \<Rightarrow> jsval" where
  "empty_envelope q =
     JObj [(''success'', JBool True),
           (''metadata'', JObj [(''total'', JNum 0), (''totalReturned'', JNum 0),
              (''filtered'', JBool False),
              (''queryParameters'', JObj [(''q'', JStr q), (''categories'', JStr ''general''),
                                          (''format'', JStr ''json'')]),
              (''additionalFields'', JObj [])]),
           (''query'', JStr q), (''answer'', JUndefined), (''results'', JArr []),
           (''rawResponse'', JUndefined)]"

text \<open>A host with one item, a value for the categories parameter, and the flag.\<close>

definition one_item :: "jsval \<Rightarrow> error + jsval \<Rightarrow> bool \<Rightarrow> execute_functions" where
  "one_item cats creds continue =
     \<lparr> inputData = [JObj []],
       getCredentials = creds,
       getNodeParameter = (\<lambda>i. \<lparr> query = JStr ''test query'', categories = cats,
                                  additionalFields = JObj [], limit = 10, pageno = 0 \<rparr>),
       continueOnFail = continue,
       httpRequest = (\<lambda>i r. Inr (JObj [(''results'', JArr [])])),
       typeErrorMessage = (\<lambda>t. []) \<rparr>"

section \<open>Properties\<close>

subsection \<open>Objects\<close>

lemma lookup_set_prop: "lookup k (set_prop k' v kvs) = (if k = k' then v else lookup k kvs)"
  by (induction kvs) auto

lemma keys_set_prop: "set (map fst (set_prop k v kvs)) = insert k (set (map fst kvs))"
  by (induction k v kvs rule: set_prop.induct) (simp_all add: insert_commute)

lemma has_key_set_prop: "has_key k (set_prop k' v kvs) = (k = k' \<or> has_key k kvs)"
  by (simp only: has_key_def keys_set_prop insert_iff)

lemma lookup_set_if_truthy:
  "k \<noteq> k' \<Longrightarrow> lookup k (set_if_truthy k' v kvs) = lookup k kvs"
  by (simp add: set_if_truthy_def lookup_set_prop)

lemma has_key_set_if_truthy:
  "k \<noteq> k' \<Longrightarrow> has_key k (set_if_truthy k' v kvs) = has_key k kvs"
  by (simp add: set_if_truthy_def has_key_set_prop)

lemma lookup_remove_key: "lookup k (remove_key k kvs) = JUndefined"
  by (induction kvs) (auto simp: remove_key_def)

lemma get_prop_falsy: "\<not> truthy v \<Longrightarrow> get_prop v k = JUndefined"
  by (cases v) auto

lemma element_strings_JStr: "element_strings (map JStr ss) = ss"
  by (induction ss) auto

subsection \<open>Categories\<close>

lemma queryParameters_categories:
  "categories_param cats = Inr cs \<Longrightarrow>
     \<exists>qp. queryParameters q cats af pg = Inr qp \<and> lookup ''categories'' qp = JStr cs"
  by (simp add: queryParameters_def Let_def lookup_set_prop lookup_set_if_truthy)

text \<open>
  Claim C1, as amended. For every query, additional fields and page number, the outbound
  parameters are built without an error and their \<open>categories\<close> entry is: the string
  itself when the categories value is a bare string; the elements joined with commas when
  it is a list of strings, which for the empty list is the empty string; and \<open>general\<close>
  when it is \<open>null\<close> or \<open>undefined\<close>.
\<close>

theorem categories_parameter:
  "(\<exists>qp. queryParameters q (JStr s) af pg = Inr qp \<and> lookup ''categories'' qp = JStr s)
   \<and> (\<exists>qp. queryParameters q (JArr (map JStr ss)) af pg = Inr qp
          \<and> lookup ''categories'' qp = JStr (join_strings '','' ss))
   \<and> (\<exists>qp. queryParameters q (JArr []) af pg = Inr qp \<and> lookup ''categories'' qp = JStr [])
   \<and> (\<exists>qp. queryParameters q JNull af pg = Inr qp \<and> lookup ''categories'' qp = JStr ''general'')
   \<and> (\<exists>qp. queryParameters q JUndefined af pg = Inr qp
          \<and> lookup ''categories'' qp = JStr ''general'')"
proof -
  have "categories_param (JStr s) = Inr s"
    by (simp add: categories_param_def js_or_def js_join_def)
  moreover have "categories_param (JArr (map JStr ss)) = Inr (join_strings '','' ss)"
    by (simp add: categories_param_def js_or_def js_join_def element_strings_JStr)
  moreover have "categories_param (JArr []) = Inr []"
    by (simp add: categories_param_def js_or_def js_join_def)
  moreover have "categories_param JNull = Inr ''general''"
    by (simp add: categories_param_def js_or_def js_join_def)
  moreover have "categories_param JUndefined = Inr ''general''"
    by (simp add: categories_param_def js_or_def js_join_def)
  ultimately show ?thesis
    using queryParameters_categories by blast
qed

theorem categories_parameter_witness:
  "lookup ''categories''
     (projr (queryParameters (JStr ''test query'') (JStr ''science'') (JObj []) 0))
     = JStr ''science''
   \<and> lookup ''categories''
     (projr (queryParameters (JStr ''test query'') (JArr [JStr ''general'', JStr ''it'']) (JObj []) 0))
     = JStr ''general,it''
   \<and> lookup ''categories''
     (projr (queryParameters (JStr ''test query'') JNull (JObj []) 0))
     = JStr ''general''"
  using categories_parameter
    [of "JStr ''test query''" "''science''" "JObj []" 0 "[''general'', ''it'']"]
  by auto

text \<open>
  Claim C1 as it is worded fails for the empty list: an empty array is truthy, so
  \<open>||\<close> keeps it, and its \<open>join\<close> is the empty string, not \<open>general\<close>.
\<close>

theorem categories_empty_list_counterexample:
  "queryParameters (JStr ''test query'') (JArr []) (JObj []) 0
     = Inr [(''q'', JStr ''test query''), (''categories'', JStr []), (''format'', JStr ''json'')]
   \<and> lookup ''categories''
         [(''q'', JStr ''test query''), (''categories'', JStr []), (''format'', JStr ''json'')]
       \<noteq> JStr ''general''"
  by (simp add: queryParameters_def categories_param_def js_or_def js_join_def set_if_truthy_def)

text \<open>
  Claim C7, evaluated where the code departs from it. A categories value that is neither a
  string nor a list, and is truthy (an object, a non-zero number, \<open>true\<close>), passes
  \<open>||\<close> unchanged and has no \<open>join\<close> method: line 261 throws a \<open>TypeError\<close> before the
  request is made, outside the inner \<open>try\<close>, so \<open>execute\<close> raises when the host does
  not continue on failure, and returns without an item for the input when it does.
\<close>

theorem categories_object_throws:
  "queryParameters (JStr ''test query'') (JObj [(''name'', JStr ''general'')]) (JObj []) 0
     = Inl (TypeError (NotAFunction ''join''))
   \<and> queryParameters (JStr ''test query'') (JNum 5) (JObj []) 0
     = Inl (TypeError (NotAFunction ''join''))
   \<and> queryParameters (JStr ''test query'') (JBool True) (JObj []) 0
     = Inl (TypeError (NotAFunction ''join''))
   \<and> execute (one_item (JObj [(''name'', JStr ''general'')])
                (Inr (JObj [(''apiUrl'', JStr ''https://searxng.example.com'')])) False)
     = Inl (TypeError (NotAFunction ''join''))
   \<and> execute (one_item (JObj [(''name'', JStr ''general'')])
                (Inr (JObj [(''apiUrl'', JStr ''https://searxng.example.com'')])) True)
     = Inr [[]]"
  by (simp add: queryParameters_def categories_param_def js_or_def execute_def on_error_def
        execute_item_def filters_of_def defaultFilters_def resolve_query_def one_item_def)

subsection \<open>Page number\<close>

text \<open>
  Claim C9. Whenever the outbound parameters are built, they hold a \<open>pageno\<close> key if and
  only if the page number is strictly greater than 0, and the key then holds the page
  number; page 0 gives no \<open>pageno\<close> key.
\<close>

theorem pageno_parameter:
  "queryParameters q cats af pg = Inr qp \<Longrightarrow>
     (has_key ''pageno'' qp \<longleftrightarrow> pg > 0) \<and> (pg > 0 \<longrightarrow> lookup ''pageno'' qp = JNum pg)"
  by (auto simp: queryParameters_def Let_def has_key_set_prop has_key_set_if_truthy lookup_set_prop
           split: sum.splits if_splits) (auto simp: has_key_def)

theorem pageno_parameter_witness:
  "has_key ''pageno''
     (projr (queryParameters (JStr ''cats'') (JArr [JStr ''general'']) (JObj []) 2))
   \<and> lookup ''pageno''
     (projr (queryParameters (JStr ''cats'') (JArr [JStr ''general'']) (JObj []) 2)) = JNum 2
   \<and> \<not> has_key ''pageno''
     (projr (queryParameters (JStr ''cats'') (JArr [JStr ''general'']) (JObj []) 0))"
proof -
  have two: "queryParameters (JStr ''cats'') (JArr [JStr ''general'']) (JObj []) 2
      = Inr [(''q'', JStr ''cats''), (''categories'', JStr ''general''), (''format'', JStr ''json''),
             (''pageno'', JNum 2)]"
    by (simp add: queryParameters_def categories_param_def js_or_def js_join_def set_if_truthy_def)
  have zero: "queryParameters (JStr ''cats'') (JArr [JStr ''general'']) (JObj []) 0
      = Inr [(''q'', JStr ''cats''), (''categories'', JStr ''general''), (''format'', JStr ''json'')]"
    by (simp add: queryParameters_def categories_param_def js_or_def js_join_def set_if_truthy_def)
  show ?thesis
    using pageno_parameter [OF two] pageno_parameter [OF zero] by (simp add: two zero)
qed

subsection \<open>Query resolution\<close>

text \<open>
  Claim C6. For every input item, the query that the code resolves is the one the ordered
  rules give: the item's \<open>query\<close> field if it is a string, else its \<open>input\<close> field if it
  is a string, else its \<open>prompt\<close> field if it is a string, else the configured query
  parameter. The resolution is a total function: it raises nothing, whatever the item.
\<close>

theorem query_resolution_order:
  "resolve_query item query_parameter = first_match item query_parameter"
  by (simp add: resolve_query_def first_match_def query_rules_def get_prop_falsy)

theorem query_resolution_order_witness:
  "resolve_query (JObj [(''prompt'', JStr ''p''), (''input'', JStr ''i''), (''query'', JNum 3)])
     (JStr ''configured'') = JStr ''i''
   \<and> resolve_query (JObj [(''query'', JNum 3)]) (JStr ''configured'') = JStr ''configured''
   \<and> resolve_query JNull (JStr ''configured'') = JStr ''configured''"
  using query_resolution_order
      [of "JObj [(''prompt'', JStr ''p''), (''input'', JStr ''i''), (''query'', JNum 3)]"
          "JStr ''configured''"]
    query_resolution_order [of "JObj [(''query'', JNum 3)]" "JStr ''configured''"]
    query_resolution_order [of JNull "JStr ''configured''"]
  by (simp add: first_match_def query_rules_def)

subsection \<open>Credentials\<close>

text \<open>
  Claim C8. Whenever the credentials cannot be resolved, because the store rejects or
  because it returns a falsy value, \<open>execute\<close> returns the output built so far, which is
  the empty list, when the host continues on failure, and otherwise raises the error: the
  store's own, or the node's \<open>No credentials got returned!\<close>.
\<close>

theorem credentials_failure:
  "getCredentials this = Inl e \<or> (\<exists>c. getCredentials this = Inr c \<and> \<not> truthy c) \<Longrightarrow>
     execute this =
       (if continueOnFail this then Inr [[]]
        else Inl (case getCredentials this of
                    Inl e \<Rightarrow> e
                  | Inr c \<Rightarrow> NodeOperationError ''No credentials got returned!''))"
  by (auto simp: execute_def on_error_def)

theorem credentials_failure_witness:
  "execute (one_item (JArr [JStr ''general'']) (Inr JNull) False)
     = Inl (NodeOperationError ''No credentials got returned!'')
   \<and> execute (one_item (JArr [JStr ''general'']) (Inl (Error ''credentials not found'')) False)
     = Inl (Error ''credentials not found'')
   \<and> execute (one_item (JArr [JStr ''general'']) (Inl (Error ''credentials not found'')) True)
     = Inr [[]]"
  using credentials_failure [of "one_item (JArr [JStr ''general'']) (Inr JNull) False" "Error []"]
    credentials_failure
      [of "one_item (JArr [JStr ''general'']) (Inl (Error ''credentials not found'')) False"
          "Error ''credentials not found''"]
    credentials_failure
      [of "one_item (JArr [JStr ''general'']) (Inl (Error ''credentials not found'')) True"
          "Error ''credentials not found''"]
  by (simp add: one_item_def)

subsection \<open>Result processing\<close>

lemma apply_filters_object: "\<exists>props'. apply_filters (JObj kvs) fs props = Inr props'"
  by (induction fs arbitrary: props) (auto simp: Let_def)

text \<open>For a result that is an object, as the upstream sends them, the callback never throws.\<close>

lemma process_result_object:
  "\<exists>processed result'. process_result filters (JObj kvs) = Inr (processed, result')"
  using apply_filters_object [of kvs filters kvs]
  by (auto simp: process_result_def Let_def)

text \<open>
  Claim C2. For every raw result that the callback processes, with any list of filters, the
  emitted result is an object that has a \<open>snippet\<close> key, and the value under it is the
  raw result's \<open>snippet\<close> falling back with \<open>||\<close> to its \<open>content\<close>, both as they were
  before the filters ran; this covers filters that name \<open>snippet\<close> or \<open>content\<close> and raw
  results that have neither field, where the value is \<open>undefined\<close>.
\<close>

theorem snippet_always_present:
  "process_result filters result = Inr (processed, result') \<Longrightarrow>
     (\<exists>props. processed = JObj props \<and> has_key ''snippet'' props)
     \<and> get_prop processed ''snippet''
         = js_or (get_prop result ''snippet'') (get_prop result ''content'')"
  by (auto simp: process_result_def Let_def has_key_set_prop lookup_set_prop
           split: if_splits sum.splits)

theorem snippet_always_present_witness:
  "process_result [''snippet'', '' content ''] (JObj [(''title'', JStr ''T''), (''content'', JStr ''C'')])
     = Inr (JObj [(''title'', JStr ''T''), (''snippet'', JStr ''C'')], JObj [(''title'', JStr ''T'')])
   \<and> has_key ''snippet'' [(''title'', JStr ''T''), (''snippet'', JStr ''C'')]
   \<and> get_prop (JObj [(''title'', JStr ''T''), (''snippet'', JStr ''C'')]) ''snippet'' = JStr ''C''"
proof -
  have run: "process_result [''snippet'', '' content '']
       (JObj [(''title'', JStr ''T''), (''content'', JStr ''C'')])
     = Inr (JObj [(''title'', JStr ''T''), (''snippet'', JStr ''C'')], JObj [(''title'', JStr ''T'')])"
    by (simp add: process_result_def js_or_def trim_def is_space_def remove_key_def)
  show ?thesis
    using snippet_always_present [OF run] run by (simp add: js_or_def)
qed

text \<open>
  Claim C3. For every response with at least one processed result, the envelope is built,
  and: when \<open>singleResponse\<close> is truthy, its \<open>answer\<close> is the first processed result's
  \<open>content\<close> falling back with \<open>||\<close> to its \<open>snippet\<close>, and its \<open>results\<close> are exactly
  that first result, whatever the limit; when \<open>singleResponse\<close> is falsy, its \<open>answer\<close>
  is \<open>undefined\<close>.
\<close>

theorem single_response:
  assumes "processed_results filters response = Inr (r # rs, response')"
  shows "\<exists>envelope. process_response filters q qp af lim response = Inr envelope
           \<and> (truthy (get_prop af ''singleResponse'') \<longrightarrow>
                 get_prop envelope ''answer''
                   = js_or (get_prop r ''content'') (get_prop r ''snippet'')
                 \<and> get_prop envelope ''results'' = JArr [r])
           \<and> (\<not> truthy (get_prop af ''singleResponse'') \<longrightarrow>
                 get_prop envelope ''answer'' = JUndefined)"
  using assms
  by (simp add: process_response_def success_envelope_def select_results_def Let_def)

theorem single_response_witness:
  "get_prop (projr (process_response [''thumbnail''] (JStr ''test query'') [(''q'', JStr ''test query'')]
       (JObj [(''singleResponse'', JBool True)]) 10
       (JObj [(''results'', JArr [JObj [(''title'', JStr ''A''), (''content'', JStr ''c1'')],
                                  JObj [(''title'', JStr ''B''), (''content'', JStr ''c2'')],
                                  JObj [(''title'', JStr ''C''), (''content'', JStr ''c3'')]])])))
     ''answer''
     = JStr ''c1''
   \<and> get_prop (projr (process_response [''thumbnail''] (JStr ''test query'') [(''q'', JStr ''test query'')]
       (JObj [(''singleResponse'', JBool True)]) 10
       (JObj [(''results'', JArr [JObj [(''title'', JStr ''A''), (''content'', JStr ''c1'')],
                                  JObj [(''title'', JStr ''B''), (''content'', JStr ''c2'')],
                                  JObj [(''title'', JStr ''C''), (''content'', JStr ''c3'')]])])))
     ''results''
     = JArr [JObj [(''title'', JStr ''A''), (''content'', JStr ''c1''), (''snippet'', JStr ''c1'')]]"
proof -
  have run: "processed_results [''thumbnail'']
       (JObj [(''results'', JArr [JObj [(''title'', JStr ''A''), (''content'', JStr ''c1'')],
                                  JObj [(''title'', JStr ''B''), (''content'', JStr ''c2'')],
                                  JObj [(''title'', JStr ''C''), (''content'', JStr ''c3'')]])])
     = Inr (JObj [(''title'', JStr ''A''), (''content'', JStr ''c1''), (''snippet'', JStr ''c1'')]
            # [JObj [(''title'', JStr ''B''), (''content'', JStr ''c2''), (''snippet'', JStr ''c2'')],
               JObj [(''title'', JStr ''C''), (''content'', JStr ''c3''), (''snippet'', JStr ''c3'')]],
            JObj [(''results'', JArr [JObj [(''title'', JStr ''A''), (''content'', JStr ''c1'')],
                                      JObj [(''title'', JStr ''B''), (''content'', JStr ''c2'')],
                                      JObj [(''title'', JStr ''C''), (''content'', JStr ''c3'')]])])"
    by (simp add: processed_results_def process_result_def js_or_def trim_def is_space_def
          remove_key_def)
  show ?thesis
    using single_response [OF run, of "JStr ''test query''" "[(''q'', JStr ''test query'')]"
        "JObj [(''singleResponse'', JBool True)]" 10]
    by (auto simp: js_or_def)
qed

text \<open>
  Claim C4. For every successful envelope, \<open>metadata.total\<close> is the number of processed
  results, counted before the single-response and limit truncation, \<open>metadata.totalReturned\<close>
  is the length of the envelope's \<open>results\<close>, and \<open>metadata.filtered\<close> is true exactly
  when the two differ.
\<close>

theorem metadata_counts:
  assumes "process_response filters q qp af lim response = Inr envelope"
  shows "\<exists>results response' returned.
           processed_results filters response = Inr (results, response')
           \<and> get_prop envelope ''results'' = JArr returned
           \<and> get_prop (get_prop envelope ''metadata'') ''total'' = JNum (int (length results))
           \<and> get_prop (get_prop envelope ''metadata'') ''totalReturned''
               = JNum (int (length returned))
           \<and> get_prop (get_prop envelope ''metadata'') ''filtered''
               = JBool (length returned \<noteq> length results)"
  using assms
  by (auto simp: process_response_def success_envelope_def Let_def split: sum.splits prod.splits)

theorem metadata_counts_witness:
  "get_prop (projr (process_response [''thumbnail''] (JStr ''cats'') [(''q'', JStr ''cats'')] (JObj []) 2
       (JObj [(''results'', JArr [JObj [(''url'', JNum 1)], JObj [(''url'', JNum 2)],
          JObj [(''url'', JNum 3)], JObj [(''url'', JNum 4)], JObj [(''url'', JNum 5)]])])))
     ''metadata''
   = JObj [(''total'', JNum 5), (''totalReturned'', JNum 2), (''filtered'', JBool True),
           (''queryParameters'', JObj [(''q'', JStr ''cats'')]), (''additionalFields'', JObj [])]"
proof -
  have run: "process_response [''thumbnail''] (JStr ''cats'') [(''q'', JStr ''cats'')] (JObj []) 2
       (JObj [(''results'', JArr [JObj [(''url'', JNum 1)], JObj [(''url'', JNum 2)],
          JObj [(''url'', JNum 3)], JObj [(''url'', JNum 4)], JObj [(''url'', JNum 5)]])])
     = Inr (JObj [(''success'', JBool True),
            (''metadata'', JObj [(''total'', JNum 5), (''totalReturned'', JNum 2),
               (''filtered'', JBool True),
               (''queryParameters'', JObj [(''q'', JStr ''cats'')]), (''additionalFields'', JObj [])]),
            (''query'', JStr ''cats''), (''answer'', JUndefined),
            (''results'', JArr [JObj [(''url'', JNum 1), (''snippet'', JUndefined)],
                                JObj [(''url'', JNum 2), (''snippet'', JUndefined)]]),
            (''rawResponse'', JUndefined)])"
    by (simp add: process_response_def processed_results_def process_result_def js_or_def trim_def
          is_space_def remove_key_def success_envelope_def select_results_def)
  show ?thesis
    using metadata_counts [OF run] by (simp add: run)
qed

subsection \<open>Transport failures\<close>

lemma execute_loop_append:
  "execute_loop this c i (xs @ ys) acc =
     (case execute_loop this c i xs acc of
        Inl x \<Rightarrow> Inl x
      | Inr acc' \<Rightarrow> execute_loop this c (i + length xs) ys acc')"
  by (induction xs arbitrary: i acc) (auto split: sum.splits)

text \<open>
  Claim C5. Take any batch and any item of it that the loop reaches (the items before it
  have been dealt with, leaving \<open>returnData\<close>) and whose request is built and then fails in
  the transport with \<open>e\<close>. When the host continues on failure, the item's turn pushes
  exactly the object \<open>{success: false, error: e.message, query}\<close>, and \<open>execute\<close> returns
  what the loop over the remaining items, taken in order from the next index, makes of the
  output so extended. When the host does not continue on failure, \<open>execute\<close> raises \<open>e\<close>
  and returns no output.
\<close>

theorem transport_failure:
  assumes creds: "getCredentials this = Inr credentials" "truthy credentials"
    and items: "inputData this = before @ item # rest"
    and before: "execute_loop this credentials 0 before [] = Inr returnData"
    and p: "p = getNodeParameter this (length before)"
    and q: "q = resolve_query item (query p)"
    and filters: "filters_of (additionalFields p) = Inr filters"
    and qp: "queryParameters q (categories p) (additionalFields p) (pageno p) = Inr qp"
    and fails: "httpRequest this (length before) (build_request credentials qp) = Inl e"
    and envelope: "envelope = JObj [(''success'', JBool False),
                                    (''error'', JStr (message (typeErrorMessage this) e)),
                                    (''query'', q)]"
  shows "(continueOnFail this \<longrightarrow>
            execute_item this credentials (length before) item = Inr envelope
            \<and> execute this
              = Inr [case execute_loop this credentials (Suc (length before)) rest
                            (returnData @ [envelope]) of
                       Inl (e', returnData') \<Rightarrow> returnData'
                     | Inr returnData' \<Rightarrow> returnData'])
         \<and> (\<not> continueOnFail this \<longrightarrow> execute this = Inl e)"
proof -
  have item: "execute_item this credentials (length before) item =
      (if continueOnFail this then Inr envelope else Inl e)"
    using p q filters qp fails envelope
    by (simp add: execute_item_def failure_envelope_def Let_def)
  have "execute_loop this credentials 0 (inputData this) []
      = execute_loop this credentials (length before) (item # rest) returnData"
    using items before by (simp add: execute_loop_append)
  then have loop: "execute_loop this credentials 0 (inputData this) [] =
      (if continueOnFail this
       then execute_loop this credentials (Suc (length before)) rest (returnData @ [envelope])
       else Inl (e, returnData))"
    using item by simp
  show ?thesis
    using creds item loop
    by (simp add: execute_def on_error_def split: sum.splits prod.splits)
qed

theorem transport_failure_witness:
  "execute (three_items True)
     = Inr [[empty_envelope ''a'',
             JObj [(''success'', JBool False), (''error'', JStr ''API error''), (''query'', JStr ''b'')],
             empty_envelope ''test query'']]
   \<and> execute (three_items False) = Inl (Error ''API error'')"
proof -
  let ?creds = "JObj [(''apiUrl'', JStr ''https://searxng.example.com''),
                      (''apiKey'', JStr ''test-api-key'')]"
  let ?qp = "[(''q'', JStr ''b''), (''categories'', JStr ''general''), (''format'', JStr ''json'')]"
  let ?before = "[JObj [(''query'', JStr ''a'')]]"
  have item: "\<And>c i kvs. i \<noteq> 1 \<Longrightarrow> execute_item (three_items c) ?creds i (JObj kvs)
      = Inr (success_envelope (resolve_query (JObj kvs) (JStr ''test query''))
               [(''q'', resolve_query (JObj kvs) (JStr ''test query'')),
                (''categories'', JStr ''general''), (''format'', JStr ''json'')]
               (JObj []) 10 [] (JObj [(''results'', JArr [])]))"
    by (simp add: three_items_def execute_item_def filters_of_def js_or_def queryParameters_def
          categories_param_def js_join_def set_if_truthy_def process_response_def
          processed_results_def Let_def)
  have env: "\<And>q. success_envelope (JStr q)
        [(''q'', JStr q), (''categories'', JStr ''general''), (''format'', JStr ''json'')]
        (JObj []) 10 [] (JObj [(''results'', JArr [])]) = empty_envelope q"
    by (simp add: success_envelope_def select_results_def empty_envelope_def)
  have before: "execute_loop (three_items c) ?creds 0 ?before [] = Inr [empty_envelope ''a'']" for c
    by (simp add: item resolve_query_def env)
  have q: "JStr ''b'' = resolve_query (JObj [(''input'', JStr ''b'')])
             (query (getNodeParameter (three_items c) (length ?before)))" for c
    by (simp add: resolve_query_def three_items_def)
  have filters: "filters_of (additionalFields (getNodeParameter (three_items c) (length ?before)))
      = Inr (split CHR '','' defaultFilters)" for c
    by (simp add: three_items_def filters_of_def js_or_def)
  have qp: "queryParameters (JStr ''b'')
       (categories (getNodeParameter (three_items c) (length ?before)))
       (additionalFields (getNodeParameter (three_items c) (length ?before)))
       (pageno (getNodeParameter (three_items c) (length ?before))) = Inr ?qp" for c
    by (simp add: three_items_def queryParameters_def categories_param_def js_or_def js_join_def
          set_if_truthy_def)
  have fails: "httpRequest (three_items c) (length ?before) (build_request ?creds ?qp)
      = Inl (Error ''API error'')" for c
    by (simp add: three_items_def)
  have creds: "getCredentials (three_items c) = Inr ?creds" "truthy ?creds" for c
    by (simp_all add: three_items_def)
  have items: "inputData (three_items c) = ?before @ JObj [(''input'', JStr ''b'')] # [JObj []]" for c
    by (simp add: three_items_def)
  have cont: "continueOnFail (three_items True)" "\<not> continueOnFail (three_items False)"
    by (simp_all add: three_items_def)
  show ?thesis
    using transport_failure [OF creds items before refl q filters qp fails refl, of True]
          transport_failure [OF creds items before refl q filters qp fails refl, of False]
          cont
    by (simp add: item resolve_query_def env)
qed

subsection \<open>Default filters\<close>

lemma lookup_remove_other: "k \<noteq> k' \<Longrightarrow> lookup k (remove_key k' kvs) = lookup k kvs"
  by (induction kvs) (auto simp: remove_key_def)

lemma filters_of_empty:
  "lookup ''filter'' kvs = JStr [] \<Longrightarrow> filters_of (JObj kvs) = Inr (split CHR '','' defaultFilters)"
  by (simp add: filters_of_def js_or_def)

lemma filters_of_absent:
  "filters_of (JObj (remove_key ''filter'' kvs)) = Inr (split CHR '','' defaultFilters)"
  by (simp add: filters_of_def js_or_def lookup_remove_key)

lemma queryParameters_without_filter:
  "queryParameters q cats (JObj (remove_key ''filter'' kvs)) pg = queryParameters q cats (JObj kvs) pg"
  by (simp add: queryParameters_def lookup_remove_other Let_def split: sum.splits)

lemma success_envelope_without_filter:
  "success_envelope q qp (JObj (remove_key ''filter'' kvs)) lim results response
     = with_additionalFields (JObj (remove_key ''filter'' kvs))
         (success_envelope q qp (JObj kvs) lim results response)"
  by (simp add: success_envelope_def select_results_def with_additionalFields_def
        lookup_remove_other Let_def split: prod.splits)

lemma failure_envelope_metadata:
  "with_additionalFields af (failure_envelope msg q) = failure_envelope msg q"
  by (simp add: with_additionalFields_def failure_envelope_def)

text \<open>
  The turn of an item whose filter is the empty string, and the turn of the same item with
  no filter at all, make the same request and return the same, apart from the additional
  fields that the metadata record.
\<close>

lemma execute_item_without_filter:
  assumes "additionalFields (getNodeParameter this i) = JObj kvs"
    and "lookup ''filter'' kvs = JStr []"
  shows "execute_item (without_filter i this) credentials i item
     = map_sum id (with_additionalFields (JObj (remove_key ''filter'' kvs)))
         (execute_item this credentials i item)"
  using assms
  by (auto simp: execute_item_def without_filter_def filters_of_empty filters_of_absent
        queryParameters_without_filter process_response_def success_envelope_without_filter
        failure_envelope_metadata Let_def
      split: sum.splits prod.splits)

text \<open>The filters leave of the properties exactly those that no non-empty trimmed token names.\<close>

lemma apply_filters_eq:
  "apply_filters result fs props = Inr props' \<Longrightarrow>
     props' = filter (\<lambda>kv. fst kv \<notin> set (filter (\<lambda>n. n \<noteq> []) (map trim fs))) props"
proof (induction fs arbitrary: props)
  case Nil
  then show ?case by simp
next
  case (Cons f fs)
  show ?case
  proof (cases "trim f = []")
    case True
    with Cons show ?thesis by simp
  next
    case False
    with Cons.prems have rest: "apply_filters result fs (remove_key (trim f) props) = Inr props'"
      by (auto simp: Let_def split: if_splits)
    from Cons.IH [OF rest] False show ?thesis
      by (auto simp: remove_key_def intro: filter_cong)
  qed
qed

lemma default_names:
  "filter (\<lambda>n. n \<noteq> []) (map trim (split CHR '','' defaultFilters)) = default_fields"
  by (simp add: defaultFilters_def trim_def is_space_def default_fields_def)

lemma apply_default_filters:
  "apply_filters result (split CHR '','' defaultFilters) props = Inr props' \<Longrightarrow>
     props' = without_default_fields props"
  by (drule apply_filters_eq) (simp add: default_names without_default_fields_def)

lemma has_key_without_default_fields:
  "k \<in> set default_fields \<Longrightarrow> \<not> has_key k (without_default_fields props)"
  by (auto simp: has_key_def without_default_fields_def)

lemma process_result_default:
  assumes "process_result (split CHR '','' defaultFilters) r = Inr (p, m)"
  shows "p = JObj (set_prop ''snippet'' (js_or (get_prop r ''snippet'') (get_prop r ''content''))
                     (without_default_fields (own_props r)))"
  using assms
  by (auto simp: process_result_def Let_def split: if_splits sum.splits dest: apply_default_filters)

text \<open>The results are processed one by one, in order, each with the whole filter list.\<close>

lemma map_results_nth:
  "map_results fs rs = Inr (ps, ms) \<Longrightarrow>
     length ps = length rs \<and> (\<forall>j<length rs. \<exists>m. process_result fs (rs ! j) = Inr (ps ! j, m))"
proof (induction rs arbitrary: ps ms)
  case Nil
  then show ?case by simp
next
  case (Cons r rs)
  then obtain p m ps' ms' where r: "process_result fs r = Inr (p, m)"
    and rest: "map_results fs rs = Inr (ps', ms')" and ps: "ps = p # ps'"
    by (auto split: sum.splits prod.splits)
  from Cons.IH [OF rest] r ps show ?case
    by (auto simp: nth_Cons split: nat.splits)
qed

lemma processed_results_nth:
  assumes "processed_results fs response = Inr (processed, response')"
    and "get_prop response ''results'' = JArr rs"
  shows "length processed = length rs
         \<and> (\<forall>j<length rs. \<exists>m. process_result fs (rs ! j) = Inr (processed ! j, m))"
  using assms
  by (auto simp: processed_results_def split: if_splits sum.splits prod.splits dest: map_results_nth)

lemma processed_results_not_array:
  assumes "processed_results fs response = Inr (processed, response')"
    and "\<forall>rs. get_prop response ''results'' \<noteq> JArr rs"
  shows "processed = []"
  using assms
  by (auto simp: processed_results_def split: if_splits sum.splits prod.splits jsval.splits)

lemma processed_results_default:
  assumes "processed_results (split CHR '','' defaultFilters) response = Inr (processed, response')"
  shows "(\<forall>r\<in>set processed. \<exists>props. r = JObj props \<and> (\<forall>k\<in>set default_fields. \<not> has_key k props))
         \<and> (\<forall>rs. get_prop response ''results'' = JArr rs \<longrightarrow>
               length processed = length rs
               \<and> (\<forall>j<length rs. \<forall>fields. rs ! j = JObj fields \<longrightarrow>
                     processed ! j
                       = JObj (set_prop ''snippet''
                                 (js_or (lookup ''snippet'' fields) (lookup ''content'' fields))
                                 (without_default_fields fields))))"
proof (cases "\<exists>rs. get_prop response ''results'' = JArr rs")
  case False
  with assms have "processed = []"
    by (auto dest: processed_results_not_array)
  with False show ?thesis by simp
next
  case True
  then obtain rs where rs: "get_prop response ''results'' = JArr rs" by blast
  note nth = processed_results_nth [OF assms rs]
  have each: "processed ! j
      = JObj (set_prop ''snippet'' (js_or (get_prop (rs ! j) ''snippet'') (get_prop (rs ! j) ''content''))
                (without_default_fields (own_props (rs ! j))))" if "j < length rs" for j
    using nth that by (auto dest: process_result_default)
  have keys: "\<exists>props. r = JObj props \<and> (\<forall>k\<in>set default_fields. \<not> has_key k props)"
    if "r \<in> set processed" for r
  proof -
    from that nth obtain j where "j < length rs" "r = processed ! j"
      by (auto simp: in_set_conv_nth)
    with each [of j] show ?thesis
      by (auto simp: has_key_set_prop has_key_without_default_fields default_fields_def)
  qed
  show ?thesis
    using rs nth each keys by auto
qed

text \<open>The loop only appends to the output, so what a turn pushes is in what \<open>execute\<close> returns.\<close>

lemma execute_loop_extends:
  "\<exists>ys. (case execute_loop this c i xs acc of Inl (e, out) \<Rightarrow> out | Inr out \<Rightarrow> out) = acc @ ys"
proof (induction xs arbitrary: i acc)
  case Nil
  then show ?case by simp
next
  case (Cons x xs)
  show ?case
  proof (cases "execute_item this c i x")
    case (Inl e)
    then show ?thesis by simp
  next
    case (Inr envelope)
    with Cons [of "Suc i" "acc @ [envelope]"] show ?thesis by auto
  qed
qed

lemma execute_returns_item:
  assumes creds: "getCredentials this = Inr credentials" "truthy credentials"
    and items: "inputData this = before @ item # rest"
    and before: "execute_loop this credentials 0 before [] = Inr returnData"
    and item: "execute_item this credentials (length before) item = Inr envelope"
    and out: "execute this = Inr outs"
  shows "\<exists>ys. outs = [returnData @ envelope # ys]"
proof -
  let ?rest = "execute_loop this credentials (Suc (length before)) rest (returnData @ [envelope])"
  have loop: "execute_loop this credentials 0 (inputData this) [] = ?rest"
    using items before item by (simp add: execute_loop_append)
  obtain ys where ys: "(case ?rest of Inl (e, out) \<Rightarrow> out | Inr out \<Rightarrow> out)
      = (returnData @ [envelope]) @ ys"
    using execute_loop_extends by blast
  have "outs = [case ?rest of Inl (e, out) \<Rightarrow> out | Inr out \<Rightarrow> out]"
    using out creds loop
    by (auto simp: execute_def on_error_def split: sum.splits prod.splits if_splits)
  with ys show ?thesis by simp
qed

text \<open>
  Claim C10. Take any item whose additional fields hold the empty string under \<open>filter\<close>.
  Its turn returns what the turn of the same item with no \<open>filter\<close> at all returns, apart
  from the additional fields that the metadata record. Whenever the turn returns a
  successful envelope, the request was made, the results of the envelope are those that
  the single-response and limit step selects among the response's results processed with
  the default filter list, none of these has a \<open>thumbnail\<close>, \<open>parsed_url\<close> or \<open>positions\<close>
  key, and each that comes from a result object is that object without the three fields
  and with its snippet. When the loop reaches the item, what \<open>execute\<close> returns holds that
  envelope at the item's place. So an empty filter string does not switch the filtering off.
\<close>

theorem empty_filter_is_default:
  assumes af: "additionalFields (getNodeParameter this i) = JObj kvs"
    and empty: "lookup ''filter'' kvs = JStr []"
    and p: "p = getNodeParameter this i"
  shows "execute_item (without_filter i this) credentials i item
           = map_sum id (with_additionalFields (JObj (remove_key ''filter'' kvs)))
               (execute_item this credentials i item)
         \<and> (\<forall>envelope.
               execute_item this credentials i item = Inr envelope
               \<and> get_prop envelope ''success'' = JBool True \<longrightarrow>
               (\<exists>qp response processed response'.
                   queryParameters (resolve_query item (query p)) (categories p) (JObj kvs) (pageno p)
                     = Inr qp
                 \<and> httpRequest this i (build_request credentials qp) = Inr response
                 \<and> processed_results (split CHR '','' defaultFilters) response
                     = Inr (processed, response')
                 \<and> get_prop envelope ''results''
                     = JArr (snd (select_results (JObj kvs) (limit p) processed))
                 \<and> (\<forall>r\<in>set processed.
                       \<exists>props. r = JObj props \<and> (\<forall>k\<in>set default_fields. \<not> has_key k props))
                 \<and> (\<forall>rs. get_prop response ''results'' = JArr rs \<longrightarrow>
                       length processed = length rs
                       \<and> (\<forall>j<length rs. \<forall>fields. rs ! j = JObj fields \<longrightarrow>
                             processed ! j
                               = JObj (set_prop ''snippet''
                                         (js_or (lookup ''snippet'' fields) (lookup ''content'' fields))
                                         (without_default_fields fields)))))
               \<and> (\<forall>before rest returnData outs.
                     getCredentials this = Inr credentials \<and> truthy credentials
                     \<and> inputData this = before @ item # rest \<and> length before = i
                     \<and> execute_loop this credentials 0 before [] = Inr returnData
                     \<and> execute this = Inr outs \<longrightarrow>
                     (\<exists>ys. outs = [returnData @ envelope # ys])))"
proof (intro conjI allI impI)
  show "execute_item (without_filter i this) credentials i item
      = map_sum id (with_additionalFields (JObj (remove_key ''filter'' kvs)))
          (execute_item this credentials i item)"
    using af empty by (rule execute_item_without_filter)
next
  fix envelope
  assume run: "execute_item this credentials i item = Inr envelope
      \<and> get_prop envelope ''success'' = JBool True"
  let ?q = "resolve_query item (query p)"
  from run af empty p obtain qp where qp:
    "queryParameters ?q (categories p) (JObj kvs) (pageno p) = Inr qp"
    by (auto simp: execute_item_def filters_of_empty Let_def split: sum.splits)
  from run af empty p qp obtain response where response:
    "httpRequest this i (build_request credentials qp) = Inr response"
    by (auto simp: execute_item_def filters_of_empty failure_envelope_def Let_def
             split: sum.splits if_splits)
  from run af empty p qp response obtain processed response' where processed:
    "processed_results (split CHR '','' defaultFilters) response = Inr (processed, response')"
    and envelope: "envelope = success_envelope ?q qp (JObj kvs) (limit p) processed response'"
    by (auto simp: execute_item_def filters_of_empty failure_envelope_def process_response_def
          Let_def split: sum.splits if_splits prod.splits)
  have results: "get_prop envelope ''results''
      = JArr (snd (select_results (JObj kvs) (limit p) processed))"
    by (simp add: envelope success_envelope_def Let_def split: prod.splits)
  show "\<exists>qp response processed response'.
      queryParameters ?q (categories p) (JObj kvs) (pageno p) = Inr qp
      \<and> httpRequest this i (build_request credentials qp) = Inr response
      \<and> processed_results (split CHR '','' defaultFilters) response = Inr (processed, response')
      \<and> get_prop envelope ''results'' = JArr (snd (select_results (JObj kvs) (limit p) processed))
      \<and> (\<forall>r\<in>set processed.
            \<exists>props. r = JObj props \<and> (\<forall>k\<in>set default_fields. \<not> has_key k props))
      \<and> (\<forall>rs. get_prop response ''results'' = JArr rs \<longrightarrow>
            length processed = length rs
            \<and> (\<forall>j<length rs. \<forall>fields. rs ! j = JObj fields \<longrightarrow>
                  processed ! j
                    = JObj (set_prop ''snippet''
                              (js_or (lookup ''snippet'' fields) (lookup ''content'' fields))
                              (without_default_fields fields))))"
    using qp response processed results processed_results_default [OF processed]
    by blast
next
  fix envelope before rest returnData outs
  assume run: "execute_item this credentials i item = Inr envelope
      \<and> get_prop envelope ''success'' = JBool True"
    and reached: "getCredentials this = Inr credentials \<and> truthy credentials
      \<and> inputData this = before @ item # rest \<and> length before = i
      \<and> execute_loop this credentials 0 before [] = Inr returnData
      \<and> execute this = Inr outs"
  then show "\<exists>ys. outs = [returnData @ envelope # ys]"
    using execute_returns_item [of this credentials before item rest returnData envelope outs]
    by auto
qed

theorem empty_filter_is_default_witness:
  "execute (filter_item (JObj [(''filter'', JStr [])]))
     = Inr [[success_envelope (JStr ''test query'')
               [(''q'', JStr ''test query''), (''categories'', JStr ''general''),
                (''format'', JStr ''json'')]
               (JObj [(''filter'', JStr [])]) 10
               [JObj [(''title'', JStr ''T''), (''content'', JStr ''C''), (''snippet'', JStr ''C'')]]
               (JObj [(''results'', JArr [JObj [(''title'', JStr ''T''), (''content'', JStr ''C'')]])])]]
   \<and> get_prop (projr (execute_item (filter_item (JObj [(''filter'', JStr [])]))
       (JObj [(''apiUrl'', JStr ''https://searxng.example.com''),
              (''apiKey'', JStr ''test-api-key'')]) 0 (JObj []))) ''results''
     = JArr [JObj [(''title'', JStr ''T''), (''content'', JStr ''C''), (''snippet'', JStr ''C'')]]
   \<and> get_prop (projr (execute_item (without_filter 0 (filter_item (JObj [(''filter'', JStr [])])))
       (JObj [(''apiUrl'', JStr ''https://searxng.example.com''),
              (''apiKey'', JStr ''test-api-key'')]) 0 (JObj []))) ''results''
     = JArr [JObj [(''title'', JStr ''T''), (''content'', JStr ''C''), (''snippet'', JStr ''C'')]]"
proof -
  let ?host = "filter_item (JObj [(''filter'', JStr [])])"
  let ?creds = "JObj [(''apiUrl'', JStr ''https://searxng.example.com''),
                      (''apiKey'', JStr ''test-api-key'')]"
  let ?envelope = "success_envelope (JStr ''test query'')
      [(''q'', JStr ''test query''), (''categories'', JStr ''general''), (''format'', JStr ''json'')]
      (JObj [(''filter'', JStr [])]) 10
      [JObj [(''title'', JStr ''T''), (''content'', JStr ''C''), (''snippet'', JStr ''C'')]]
      (JObj [(''results'', JArr [JObj [(''title'', JStr ''T''), (''content'', JStr ''C'')]])])"
  have af: "additionalFields (getNodeParameter ?host 0) = JObj [(''filter'', JStr [])]"
    by (simp add: filter_item_def)
  have empty: "lookup ''filter'' [(''filter'', JStr [])] = JStr []"
    by simp
  have run: "execute_item ?host ?creds 0 (JObj []) = Inr ?envelope"
    by (simp add: filter_item_def execute_item_def filters_of_def js_or_def defaultFilters_def
          queryParameters_def categories_param_def js_join_def set_if_truthy_def resolve_query_def
          process_response_def processed_results_def process_result_def trim_def is_space_def
          remove_key_def Let_def)
  have success: "get_prop ?envelope ''success'' = JBool True"
    by (simp add: success_envelope_def Let_def split: prod.splits)
  have all: "execute ?host = Inr [[?envelope]]"
    using run by (simp add: execute_def filter_item_def)
  have reached: "getCredentials ?host = Inr ?creds \<and> truthy ?creds
      \<and> inputData ?host = [] @ JObj [] # [] \<and> length ([] :: jsval list) = 0
      \<and> execute_loop ?host ?creds 0 [] [] = Inr [] \<and> execute ?host = Inr [[?envelope]]"
    using all by (simp add: filter_item_def)
  note inst = empty_filter_is_default [OF af empty refl, of ?creds "JObj []"]
  from inst have same: "execute_item (without_filter 0 ?host) ?creds 0 (JObj [])
      = map_sum id (with_additionalFields (JObj (remove_key ''filter'' [(''filter'', JStr [])])))
          (execute_item ?host ?creds 0 (JObj []))"
    by blast
  from inst run success reached have "\<exists>ys. [[?envelope]] = [[] @ ?envelope # ys]"
    by blast
  with all same run show ?thesis
    by (simp add: success_envelope_def select_results_def with_additionalFields_def Let_def)
qed

end
